theory Spec2Isabelle
  imports Complex_Main
begin

section \<open>Python values that \<open>json.loads\<close> produces\<close>

text \<open>
  A Python \<open>float\<close> is an IEEE-754 binary64 value. A finite one is \<open>Fin m e\<close>, the
  dyadic number \<open>m \<sqdot> 2\<^sup>e\<close> (\<open>Fin 0 e\<close> is \<open>+0.0\<close>, and \<open>92.5\<close> is \<open>Fin 185 (- 1)\<close>);
  every finite binary64 value is of this form. Minus zero, the two infinities and NaN,
  all of which \<open>json.loads\<close> can return, are constructors of their own.
\<close>

datatype pyfloat = Fin int int | NegZero | PosInf | NegInf | NaN

text \<open>
  A parsed JSON document. A Python \<open>dict\<close> keeps insertion order, so an object is an
  association list (the parser gives distinct keys). A \<open>str\<close> is a \<open>string\<close>: its
  characters are the code points below 256.
\<close>

datatype json =
    JNull
  | JBool bool
  | JInt int
  | JFloat pyfloat
  | JStr string
  | JList "json list"
  | JDict "(string \<times> json) list"

text \<open>The numbers of Python: \<open>int\<close> (unbounded; \<open>bool\<close> is a subclass of it) and \<open>float\<close>.\<close>

datatype pynum = PyInt int | PyFloat pyfloat

fun num_of :: "json \<Rightarrow> pynum option" where
  "num_of (JBool b) = Some (PyInt (if b then 1 else 0))"
| "num_of (JInt n) = Some (PyInt n)"
| "num_of (JFloat f) = Some (PyFloat f)"
| "num_of _ = None"

text \<open>Truth value of an object, as \<open>if x:\<close> tests it.\<close>

fun float_truthy :: "pyfloat \<Rightarrow> bool" where
  "float_truthy (Fin m e) = (m \<noteq> 0)"
| "float_truthy NegZero = False"
| "float_truthy _ = True"

fun truthy :: "json \<Rightarrow> bool" where
  "truthy JNull = False"
| "truthy (JBool b) = b"
| "truthy (JInt n) = (n \<noteq> 0)"
| "truthy (JFloat f) = float_truthy f"
| "truthy (JStr s) = (s \<noteq> [])"
| "truthy (JList xs) = (xs \<noteq> [])"
| "truthy (JDict kvs) = (kvs \<noteq> [])"

text \<open>\<open>d.get(key, default)\<close> on a dict.\<close>

definition py_get :: "(string \<times> json) list \<Rightarrow> string \<Rightarrow> json \<Rightarrow> json" where
  "py_get d key dflt = (case map_of d key of None \<Rightarrow> dflt | Some v \<Rightarrow> v)"

subsection \<open>Comparison of numbers\<close>

text \<open>
  Python compares an \<open>int\<close> with a \<open>float\<close> by their exact values; every comparison with
  NaN is false.
\<close>

fun exact :: "pynum \<Rightarrow> pyfloat" where
  "exact (PyInt n) = Fin n 0"
| "exact (PyFloat f) = f"

fun float_lt :: "pyfloat \<Rightarrow> pyfloat \<Rightarrow> bool" where
  "float_lt NaN _ = False"
| "float_lt _ NaN = False"
| "float_lt PosInf _ = False"
| "float_lt _ NegInf = False"
| "float_lt NegInf _ = True"
| "float_lt _ PosInf = True"
| "float_lt (Fin m1 e1) (Fin m2 e2) =
     (let e = min e1 e2 in m1 * 2 ^ nat (e1 - e) < m2 * 2 ^ nat (e2 - e))"
| "float_lt (Fin m e) NegZero = (m < 0)"
| "float_lt NegZero (Fin m e) = (0 < m)"
| "float_lt NegZero NegZero = False"

definition py_lt :: "pynum \<Rightarrow> pynum \<Rightarrow> bool" where
  "py_lt a b = float_lt (exact a) (exact b)"

text \<open>
  \<open>min\<close> and \<open>max\<close> of a sequence keep the first item and replace it only by a strictly
  smaller (larger) one; on the empty sequence they raise.
\<close>

definition py_min :: "pynum list \<Rightarrow> pynum option" where
  "py_min xs = (case xs of [] \<Rightarrow> None
     | x # rest \<Rightarrow> Some (foldl (\<lambda>cur item. if py_lt item cur then item else cur) x rest))"

definition py_max :: "pynum list \<Rightarrow> pynum option" where
  "py_max xs = (case xs of [] \<Rightarrow> None
     | x # rest \<Rightarrow> Some (foldl (\<lambda>cur item. if py_lt cur item then item else cur) x rest))"

subsection \<open>Conversion of an \<open>int\<close> or a decimal literal to binary64\<close>

fun bit_length :: "nat \<Rightarrow> nat" where
  "bit_length n = (if n = 0 then 0 else Suc (bit_length (n div 2)))"

declare bit_length.simps [simp del]

text \<open>The quotient \<open>a / b\<close> rounded to the nearest integer, a tie to the even one.\<close>

definition rhe_div :: "nat \<Rightarrow> nat \<Rightarrow> nat" where
  "rhe_div a b =
     (let q = a div b; r = a mod b
      in if 2 * r < b then q else if b < 2 * r then q + 1 else if even q then q else q + 1)"

text \<open>\<open>\<lfloor>log\<^sub>2 (a / b)\<rfloor>\<close> for positive \<open>a\<close> and \<open>b\<close>.\<close>

definition ilog2 :: "nat \<Rightarrow> nat \<Rightarrow> int" where
  "ilog2 a b =
     (let d = int (bit_length a) - int (bit_length b)
      in if (if 0 \<le> d then b * 2 ^ nat d \<le> a else b \<le> a * 2 ^ nat (- d)) then d else d - 1)"

text \<open>
  The binary64 value nearest to \<open>a / b\<close> (round to nearest, ties to even), as a
  significand \<open>m\<close> and an exponent \<open>s\<close>: the value is \<open>m \<sqdot> 2\<^sup>s\<close>, with 53 bits of
  precision above the subnormal range and steps of \<open>2\<^sup>-\<^sup>1\<^sup>0\<^sup>7\<^sup>4\<close> inside it.
\<close>

definition binary64_parts :: "nat \<Rightarrow> nat \<Rightarrow> nat \<times> int" where
  "binary64_parts a b =
     (let s = max (ilog2 a b) (- 1022) - 52
      in if 0 \<le> s then (rhe_div a (b * 2 ^ nat s), s)
         else (rhe_div (a * 2 ^ nat (- s)) b, s))"

text \<open>The conversion overflows when the rounded value reaches \<open>2\<^sup>1\<^sup>0\<^sup>2\<^sup>4\<close>.\<close>

definition overflows :: "nat \<times> int \<Rightarrow> bool" where
  "overflows p = (case p of (m, s) \<Rightarrow> 0 \<le> s \<and> 2 ^ 1024 \<le> m * 2 ^ nat s)"

text \<open>
  \<open>float(n)\<close> for an \<open>int\<close>, as \<open>format(n, '.2f')\<close> calls it: \<open>None\<close> is the
  \<open>OverflowError\<close> of an \<open>int\<close> too large for a \<open>float\<close>.
\<close>

definition float_of_int :: "int \<Rightarrow> pyfloat option" where
  "float_of_int n =
     (if n = 0 then Some (Fin 0 0)
      else let p = binary64_parts (nat \<bar>n\<bar>) 1
           in if overflows p then None
              else Some (Fin (if n < 0 then - int (fst p) else int (fst p)) (snd p)))"

text \<open>
  The \<open>float\<close> a JSON number with a fraction or an exponent parses to: the literal
  \<open>\<plusminus> digits \<sqdot> 10\<^sup>x\<close>, so \<open>45.12345\<close> is \<open>float_of_literal False 4512345 (- 5)\<close>. Too large
  a literal gives an infinity, too small a one a zero.
\<close>

definition float_of_literal :: "bool \<Rightarrow> nat \<Rightarrow> int \<Rightarrow> pyfloat" where
  "float_of_literal negative digits x =
     (let p = (if digits = 0 then (0, 0)
               else if 0 \<le> x then binary64_parts (digits * 10 ^ nat x) 1
               else binary64_parts digits (10 ^ nat (- x)))
      in if overflows p then (if negative then NegInf else PosInf)
         else if fst p = 0 then (if negative then NegZero else Fin 0 0)
         else Fin (if negative then - int (fst p) else int (fst p)) (snd p))"

subsection \<open>The format specification \<open>.kf\<close>\<close>

definition digit_char :: "nat \<Rightarrow> char" where
  "digit_char d = ''0123456789'' ! (d mod 10)"

fun dec :: "nat \<Rightarrow> string" where
  "dec n = (if n < 10 then [digit_char n] else dec (n div 10) @ [digit_char n])"

declare dec.simps [simp del]

text \<open>The digits of \<open>n / 10\<^sup>k\<close> with \<open>k\<close> decimal places.\<close>

definition fixed_digits :: "nat \<Rightarrow> nat \<Rightarrow> string" where
  "fixed_digits k n =
     dec (n div 10 ^ k) @
     (if k = 0 then [] else
        let frac = dec (n mod 10 ^ k)
        in ''.'' @ replicate (k - length frac) (CHR ''0'') @ frac)"

text \<open>
  \<open>format(f, '.kf')\<close> for a \<open>float\<close>: the exact value \<open>\<bar>m\<bar> \<sqdot> 2\<^sup>e\<close> correctly rounded to
  \<open>k\<close> decimal places (ties to even); the sign of a negative value stays when the digits are all zero.
\<close>

definition format_float :: "nat \<Rightarrow> pyfloat \<Rightarrow> string" where
  "format_float k f =
     (case f of
        Fin m e \<Rightarrow> (if m < 0 then ''-'' else '''') @
                 fixed_digits k
                   (if 0 \<le> e then nat \<bar>m\<bar> * 2 ^ nat e * 10 ^ k
                    else rhe_div (nat \<bar>m\<bar> * 10 ^ k) (2 ^ nat (- e)))
      | NegZero \<Rightarrow> ''-'' @ fixed_digits k 0
      | PosInf \<Rightarrow> ''inf''
      | NegInf \<Rightarrow> ''-inf''
      | NaN \<Rightarrow> ''nan'')"

text \<open>An \<open>int\<close> is converted to \<open>float\<close> first. \<open>None\<close>: the formatting raises.\<close>

fun format_num :: "nat \<Rightarrow> pynum \<Rightarrow> string option" where
  "format_num k (PyInt n) = map_option (format_float k) (float_of_int n)"
| "format_num k (PyFloat f) = Some (format_float k f)"

text \<open>
  \<open>f"{value:.kf}"\<close> on a parsed value: \<open>None\<close>, \<open>str\<close>, \<open>list\<close> and \<open>dict\<close> do not accept
  the format and raise.
\<close>

definition format_value :: "nat \<Rightarrow> json \<Rightarrow> string option" where
  "format_value k v = (case num_of v of None \<Rightarrow> None | Some n \<Rightarrow> format_num k n)"

section \<open>The result reporter: \<open>display_results\<close>\<close>

text \<open>
  The reporter only prints. Its model returns the argument of every \<open>print\<close> call in
  order (\<open>print\<close> ends each with a newline), and whether it returned or stopped at an
  exception. Nothing in the program catches an exception of the reporter, so the kind of
  exception is not recorded: the lines printed before it are.
\<close>

datatype status = Done | Raised

type_synonym printed = "string list \<times> status"

text \<open>Sequencing: what follows an exception does not run.\<close>

definition and_then :: "printed \<Rightarrow> printed \<Rightarrow> printed" where
  "and_then p q = (case p of (out, Raised) \<Rightarrow> (out, Raised)
                            | (out, Done) \<Rightarrow> (out @ fst q, snd q))"

definition print :: "string \<Rightarrow> printed" where
  "print s = ([s], Done)"

text \<open>
  \<open>str.upper\<close>, on the ASCII letters; the metric names of the command line and of the
  engine are ASCII.
\<close>

definition upper_char :: "char \<Rightarrow> char" where
  "upper_char c =
     (case map_of (zip ''abcdefghijklmnopqrstuvwxyz'' ''ABCDEFGHIJKLMNOPQRSTUVWXYZ'') c of
        None \<Rightarrow> c
      | Some u \<Rightarrow> u)"

definition upper :: "string \<Rightarrow> string" where
  "upper s = map upper_char s"

subsection \<open>The VMAF block\<close>

text \<open>The conditional expression of lines 81 to 84.\<close>

definition quality_tier :: "pynum \<Rightarrow> string" where
  "quality_tier vmaf_score =
     (if py_lt vmaf_score (PyInt 20) then ''Bad''
      else if py_lt vmaf_score (PyInt 40) then ''Poor''
      else if py_lt vmaf_score (PyInt 60) then ''Fair''
      else if py_lt vmaf_score (PyInt 80) then ''Good''
      else ''Excellent'')"

definition interpretation_legend :: "string list" where
  "interpretation_legend =
     [''\<newline>=== VMAF SCORE INTERPRETATION ==='',
      ''0-20:   Bad quality'',
      ''20-40:  Poor quality'',
      ''40-60:  Fair quality'',
      ''60-80:  Good quality'',
      ''80-100: Excellent quality'']"

text \<open>
  Lines 69 to 85: \<open>vmaf_score = data.get('mean', None)\<close>, then everything under
  \<open>if vmaf_score:\<close>.
\<close>

definition vmaf_score_part :: "(string \<times> json) list \<Rightarrow> printed" where
  "vmaf_score_part data =
     (let vmaf_score = py_get data ''mean'' JNull
      in if truthy vmaf_score then
           (case num_of vmaf_score of
              None \<Rightarrow> ([], Raised)
            | Some v \<Rightarrow>
                (case format_num 2 v of
                   None \<Rightarrow> ([], Raised)
                 | Some s \<Rightarrow>
                     ([''VMAF Score: '' @ s @ '' / 100.0''] @ interpretation_legend @
                      [''\<newline>This video's quality is rated as: '' @ quality_tier v], Done)))
         else ([], Done))"

text \<open>\<open>len(x)\<close>: \<open>None\<close> where the object has no length.\<close>

fun py_len :: "json \<Rightarrow> nat option" where
  "py_len (JList xs) = Some (length xs)"
| "py_len (JStr s) = Some (length s)"
| "py_len (JDict kvs) = Some (length kvs)"
| "py_len _ = None"

text \<open>
  \<open>frame.get('metrics', {}).get('vmaf', 0)\<close>: \<open>None\<close> where \<open>frame\<close> or its
  \<open>'metrics'\<close> entry is not a dict and has no \<open>get\<close>.
\<close>

definition frame_vmaf :: "json \<Rightarrow> json option" where
  "frame_vmaf frame =
     (case frame of
        JDict fd \<Rightarrow>
          (case py_get fd ''metrics'' (JDict []) of
             JDict md \<Rightarrow> Some (py_get md ''vmaf'' (JInt 0))
           | _ \<Rightarrow> None)
      | _ \<Rightarrow> None)"

text \<open>All of \<open>xs\<close>, when none is \<open>None\<close>.\<close>

fun all_some :: "'a option list \<Rightarrow> 'a list option" where
  "all_some [] = Some []"
| "all_some (None # xs) = None"
| "all_some (Some x # xs) = map_option ((#) x) (all_some xs)"

text \<open>
  The values \<open>min\<close> and \<open>max\<close> range over, for \<open>for frame in data['frames']\<close>. Iterating a
  \<open>str\<close> or a \<open>dict\<close> yields strings, which have no \<open>get\<close>; a number is not iterable.
  A value that is not a number makes the line raise whatever the other values are: two
  values of different kinds do not compare, and a \<open>str\<close>, a \<open>list\<close>, a \<open>dict\<close> or \<open>None\<close>
  that \<open>min\<close> returns does not accept the format \<open>.2f\<close>. So \<open>None\<close> stands for every
  way the line raises before it formats a number.
\<close>

definition frame_values :: "json \<Rightarrow> pynum list option" where
  "frame_values frames =
     (case frames of
        JList fs \<Rightarrow>
          (case all_some (map frame_vmaf fs) of
             None \<Rightarrow> None
           | Some vs \<Rightarrow> all_some (map num_of vs))
      | _ \<Rightarrow> None)"

definition print_extreme ::
  "string \<Rightarrow> (pynum list \<Rightarrow> pynum option) \<Rightarrow> json \<Rightarrow> printed" where
  "print_extreme label pick frames =
     (case frame_values frames of
        None \<Rightarrow> ([], Raised)
      | Some vs \<Rightarrow>
          (case pick vs of
             None \<Rightarrow> ([], Raised)
           | Some v \<Rightarrow>
               (case format_num 2 v of
                  None \<Rightarrow> ([], Raised)
                | Some s \<Rightarrow> print (label @ s))))"

text \<open>Lines 88 to 92.\<close>

definition vmaf_frames_part :: "(string \<times> json) list \<Rightarrow> printed" where
  "vmaf_frames_part data =
     (case map_of data ''frames'' of
        None \<Rightarrow> ([], Done)
      | Some frames \<Rightarrow>
          if truthy frames then
            and_then (print ''\<newline>=== Frame-by-Frame Details ==='')
              (case py_len frames of
                 None \<Rightarrow> ([], Raised)
               | Some n \<Rightarrow>
                   and_then (print (''Analyzed '' @ dec n @ '' frames''))
                     (and_then (print_extreme ''Min VMAF: '' py_min frames)
                        (print_extreme ''Max VMAF: '' py_max frames)))
          else ([], Done))"

definition vmaf_block :: "json \<Rightarrow> printed" where
  "vmaf_block data =
     (case data of
        JDict d \<Rightarrow> and_then (vmaf_score_part d) (vmaf_frames_part d)
      | _ \<Rightarrow> ([], Raised))"

subsection \<open>The PSNR and SSIM blocks\<close>

text \<open>Lines 96 to 98: the loop over \<open>data.items()\<close>.\<close>

fun print_components :: "string \<Rightarrow> (string \<times> json) list \<Rightarrow> printed" where
  "print_components metric [] = ([], Done)"
| "print_components metric ((component, v) # rest) =
     (if component \<noteq> ''frames'' then
        (case format_value 4 v of
           None \<Rightarrow> ([], Raised)
         | Some s \<Rightarrow>
             and_then (print (upper metric @ '' '' @ component @ '': '' @ s))
               (print_components metric rest))
      else print_components metric rest)"

definition component_block :: "string \<Rightarrow> json \<Rightarrow> printed" where
  "component_block metric data =
     (case data of JDict d \<Rightarrow> print_components metric d | _ \<Rightarrow> ([], Raised))"

subsection \<open>The fallback: \<open>json.dumps(data, indent=2)\<close>\<close>

definition join :: "string \<Rightarrow> string list \<Rightarrow> string" where
  "join sep xs = (case xs of [] \<Rightarrow> [] | x # rest \<Rightarrow> x @ concat (map ((@) sep) rest))"

definition int_str :: "int \<Rightarrow> string" where
  "int_str n = (if n < 0 then ''-'' @ dec (nat (- n)) else dec (nat n))"

definition hex_digit :: "nat \<Rightarrow> char" where
  "hex_digit d = ''0123456789abcdef'' ! (d mod 16)"

text \<open>
  The encoder escapes (\<open>ensure_ascii\<close> is on) the quote, the backslash and every
  character outside the printable ASCII range. Characters are 8 bits wide here, so the
  four hexadecimal digits of an escape always start with two zeros.
\<close>

definition escape_char :: "char \<Rightarrow> string" where
  "escape_char c =
     (if c = CHR 0x22 then [CHR 0x5C, CHR 0x22]
      else if c = CHR 0x5C then [CHR 0x5C, CHR 0x5C]
      else if c = CHR 0x0A then [CHR 0x5C, CHR ''n'']
      else if c = CHR 0x0D then [CHR 0x5C, CHR ''r'']
      else if c = CHR 0x09 then [CHR 0x5C, CHR ''t'']
      else if c = CHR 0x08 then [CHR 0x5C, CHR ''b'']
      else if c = CHR 0x0C then [CHR 0x5C, CHR ''f'']
      else let n = of_char c :: nat
           in if 32 \<le> n \<and> n \<le> 126 then [c]
              else [CHR 0x5C] @ ''u00'' @ [hex_digit (n div 16), hex_digit n])"

definition quote :: "string \<Rightarrow> string" where
  "quote s = [CHR 0x22] @ concat (map escape_char s) @ [CHR 0x22]"

text \<open>
  The encoder writes NaN and the infinities itself and leaves every other \<open>float\<close> to
  \<open>float.__repr__\<close>, the shortest decimal that reads back as the same value. That
  function of the Python runtime is the parameter \<open>frepr\<close>.
\<close>

definition float_str :: "(pyfloat \<Rightarrow> string) \<Rightarrow> pyfloat \<Rightarrow> string" where
  "float_str frepr f =
     (case f of NaN \<Rightarrow> ''NaN'' | PosInf \<Rightarrow> ''Infinity'' | NegInf \<Rightarrow> ''-Infinity''
      | _ \<Rightarrow> frepr f)"

text \<open>A line break followed by the indentation of nesting depth \<open>level\<close>.\<close>

definition newline_indent :: "nat \<Rightarrow> nat \<Rightarrow> string" where
  "newline_indent indent level = CHR 0x0A # replicate (indent * level) (CHR '' '')"

fun json_dumps :: "(pyfloat \<Rightarrow> string) \<Rightarrow> nat \<Rightarrow> nat \<Rightarrow> json \<Rightarrow> string" where
  "json_dumps frepr indent level JNull = ''null''"
| "json_dumps frepr indent level (JBool b) = (if b then ''true'' else ''false'')"
| "json_dumps frepr indent level (JInt n) = int_str n"
| "json_dumps frepr indent level (JFloat f) = float_str frepr f"
| "json_dumps frepr indent level (JStr s) = quote s"
| "json_dumps frepr indent level (JList xs) =
     (if xs = [] then ''[]''
      else ''['' @ newline_indent indent (Suc level) @
           join ('','' @ newline_indent indent (Suc level))
             (map (json_dumps frepr indent (Suc level)) xs) @
           newline_indent indent level @ '']'')"
| "json_dumps frepr indent level (JDict kvs) =
     (if kvs = [] then ''{}''
      else ''{'' @ newline_indent indent (Suc level) @
           join ('','' @ newline_indent indent (Suc level))
             (map (\<lambda>(k, v). quote k @ '': '' @ json_dumps frepr indent (Suc level) v) kvs) @
           newline_indent indent level @ ''}'')"

subsection \<open>The loop over the metrics\<close>

text \<open>Lines 65 to 104, the body of \<open>for metric, data in results.items()\<close>.\<close>

definition display_metric :: "(pyfloat \<Rightarrow> string) \<Rightarrow> string \<Rightarrow> json \<Rightarrow> printed" where
  "display_metric frepr metric data =
     and_then (print (''=== '' @ upper metric @ '' Results ===''))
       (and_then
          (if metric = ''vmaf'' then vmaf_block data
           else if metric \<in> set [''psnr'', ''ssim''] then component_block metric data
           else print (json_dumps frepr 2 0 data))
          (print ''''))"

fun display_items :: "(pyfloat \<Rightarrow> string) \<Rightarrow> (string \<times> json) list \<Rightarrow> printed" where
  "display_items frepr [] = ([], Done)"
| "display_items frepr ((metric, data) # rest) =
     and_then (display_metric frepr metric data) (display_items frepr rest)"

text \<open>The banner is printed before \<open>results.items()\<close> is called, which a non-dict lacks.\<close>

definition display_results :: "(pyfloat \<Rightarrow> string) \<Rightarrow> json \<Rightarrow> printed" where
  "display_results frepr results =
     and_then (print ''\<newline>=== VIDEO QUALITY ASSESSMENT RESULTS ===\<newline>'')
       (case results of JDict items \<Rightarrow> display_items frepr items | _ \<Rightarrow> ([], Raised))"

section \<open>The program around the reporter\<close>

text \<open>
  What the program does to its environment is a trace of events in the order they
  happen: the text of each \<open>print\<close>, each \<open>subprocess.run\<close> with its command line, and
  each \<open>os.path.exists\<close> with its path.
\<close>

datatype event =
    Print string
  | RunDownloader "string list"
  | RunEngine "string list"
  | PathExists string

text \<open>
  A function of the program returns a value, leaves through \<open>sys.exit(code)\<close>, or raises
  an exception that nothing catches (the interpreter then prints a traceback and the
  process ends with status 1).
\<close>

datatype 'a outcome = Returned 'a | SysExit int | Uncaught

type_synonym 'a run = "event list \<times> 'a outcome"


text \<open>
  How a call of \<open>subprocess.run\<close> ends: the executable is not found
  (\<open>FileNotFoundError\<close>), the call fails with another exception, or the child exits
  with a return code, its captured standard output and standard error.
\<close>

datatype proc = NotFound | OtherFailure | Exited int string string

text \<open>
  The environment of one run. \<open>path_exists\<close> is the file system at the time of the checks
  of \<open>main\<close>. \<open>json_loads\<close> is the parser, \<open>None\<close> its \<open>JSONDecodeError\<close>; \<open>error_text\<close> is
  \<open>str\<close> of the \<open>CalledProcessError\<close> of a command and its return code; \<open>float_repr\<close> is
  \<open>float.__repr__\<close>.
\<close>

record world =
  downloader :: "string list \<Rightarrow> proc"
  engine :: "string list \<Rightarrow> proc"
  path_exists :: "string \<Rightarrow> bool"
  gettempdir :: string
  json_loads :: "string \<Rightarrow> json option"
  error_text :: "string list \<Rightarrow> int \<Rightarrow> string"
  float_repr :: "pyfloat \<Rightarrow> string"

text \<open>The parsed command line (\<open>argparse\<close> leaves an option that is not given at \<open>None\<close>).\<close>

record args =
  reference :: "string option"
  youtube :: "string option"
  distorted :: string
  youtube_output :: "string option"
  metrics :: "string list"

text \<open>\<open>os.path.join\<close> of a directory and a file name (POSIX).\<close>

definition os_path_join :: "string \<Rightarrow> string \<Rightarrow> string" where
  "os_path_join dir name =
     (if dir = [] \<or> last dir = CHR ''/'' then dir @ name else dir @ ''/'' @ name)"

definition download_youtube_video :: "world \<Rightarrow> string \<Rightarrow> string option \<Rightarrow> string run" where
  "download_youtube_video w url output_path =
     (let out = (case output_path of
                   None \<Rightarrow> os_path_join (gettempdir w) ''youtube_download.mp4''
                 | Some p \<Rightarrow> p);
          cmd = [''yt-dlp'', ''-f'', ''bestvideo[ext=mp4]+bestaudio[ext=m4a]/mp4'', url, ''-o'', out];
          start = [Print (''Downloading YouTube video from: '' @ url),
                   Print (''Saving to: '' @ out),
                   RunDownloader cmd]
      in case downloader w cmd of
           Exited code sout serr \<Rightarrow>
             if code = 0 then (start, Returned out)
             else (start @ [Print (''Error downloading YouTube video: '' @ error_text w cmd code)],
                   SysExit 1)
         | NotFound \<Rightarrow>
             (start @ [Print ''Error: yt-dlp not found. Install it with: pip install yt-dlp''],
              SysExit 1)
         | OtherFailure \<Rightarrow> (start, Uncaught))"

definition run_video_comparison ::
  "world \<Rightarrow> string \<Rightarrow> string \<Rightarrow> string list option \<Rightarrow> json run" where
  "run_video_comparison w reference_video distorted_video metrics_arg =
     (let ms = (case metrics_arg of None \<Rightarrow> [''vmaf''] | Some m \<Rightarrow> m);
          metrics_str = join '' '' ms;
          cmd = [''ffmpeg-quality-metrics'', reference_video, distorted_video, ''--metrics''] @ ms;
          start = [Print ''Running comparison between:'',
                   Print (''Reference:  '' @ reference_video),
                   Print (''Distorted:  '' @ distorted_video),
                   Print (''Using metrics: '' @ metrics_str),
                   RunEngine cmd]
      in case engine w cmd of
           Exited code sout serr \<Rightarrow>
             if code = 0 then
               (case json_loads w sout of
                  Some results \<Rightarrow> (start, Returned results)
                | None \<Rightarrow>
                    (start @ [Print (''Error parsing output. Raw output: '' @ sout)], SysExit 1))
             else
               (start @ [Print (''Error running ffmpeg-quality-metrics: '' @ error_text w cmd code),
                         Print (''Command output: '' @ serr)],
                SysExit 1)
         | NotFound \<Rightarrow> (start, Uncaught)
         | OtherFailure \<Rightarrow> (start, Uncaught))"

text \<open>Running one step after another: the second runs on what the first returned.\<close>

definition bind_run :: "'a run \<Rightarrow> ('a \<Rightarrow> 'b run) \<Rightarrow> 'b run" where
  "bind_run r f =
     (case r of
        (tr, Returned x) \<Rightarrow> (case f x of (tr', y) \<Rightarrow> (tr @ tr', y))
      | (tr, SysExit code) \<Rightarrow> (tr, SysExit code)
      | (tr, Uncaught) \<Rightarrow> (tr, Uncaught))"

text \<open>
  Lines 126 to 130. \<open>if args.youtube:\<close> is false for an option that is not given and for
  an empty URL; \<open>reference_video\<close> is then \<open>args.reference\<close>, which may be \<open>None\<close>.
\<close>

definition resolve_reference :: "world \<Rightarrow> args \<Rightarrow> string option run" where
  "resolve_reference w a =
     (case youtube a of
        Some url \<Rightarrow>
          if url \<noteq> [] then
            bind_run (download_youtube_video w url (youtube_output a))
              (\<lambda>path. ([], Returned (Some path)))
          else ([], Returned (reference a))
      | None \<Rightarrow> ([], Returned (reference a)))"

text \<open>
  Lines 133 to 136, the loop over \<open>[reference_video, args.distorted]\<close>.
  \<open>os.path.exists(None)\<close> raises \<open>TypeError\<close>.
\<close>

fun check_files :: "world \<Rightarrow> string option list \<Rightarrow> unit run" where
  "check_files w [] = ([], Returned ())"
| "check_files w (None # rest) = ([], Uncaught)"
| "check_files w (Some video_path # rest) =
     (if \<not> path_exists w video_path then
        ([PathExists video_path, Print (''Error: Video file not found: '' @ video_path)],
         SysExit 1)
      else bind_run ([PathExists video_path], Returned ()) (\<lambda>_. check_files w rest))"

text \<open>The reporter inside the program: its lines are printed, its exception is not caught.\<close>

definition report :: "world \<Rightarrow> json \<Rightarrow> unit run" where
  "report w results =
     (case display_results (float_repr w) results of
        (out, Done) \<Rightarrow> (map Print out, Returned ())
      | (out, Raised) \<Rightarrow> (map Print out, Uncaught))"

text \<open>
  Lines 126 to 142. The checks raise on a \<open>reference_video\<close> that is \<open>None\<close>, so the
  comparison only ever runs on a path.
\<close>

definition main :: "world \<Rightarrow> args \<Rightarrow> unit run" where
  "main w a =
     bind_run (resolve_reference w a) (\<lambda>reference_video.
     bind_run (check_files w [reference_video, Some (distorted a)]) (\<lambda>_.
       case reference_video of
         None \<Rightarrow> ([], Uncaught)
       | Some r \<Rightarrow>
           bind_run (run_video_comparison w r (distorted a) (Some (metrics a)))
             (\<lambda>results. report w results)))"

section \<open>Notions the properties are stated with\<close>

text \<open>The rational value of a finite number.\<close>

fun float_val :: "pyfloat \<Rightarrow> rat" where
  "float_val (Fin m e) = of_int m * 2 powi e"
| "float_val _ = 0"

fun num_val :: "pynum \<Rightarrow> rat" where
  "num_val (PyInt n) = of_int n"
| "num_val (PyFloat f) = float_val f"

fun finite_float :: "pyfloat \<Rightarrow> bool" where
  "finite_float (Fin m e) = True"
| "finite_float NegZero = True"
| "finite_float _ = False"

fun finite_num :: "pynum \<Rightarrow> bool" where
  "finite_num (PyInt n) = True"
| "finite_num (PyFloat f) = finite_float f"

text \<open>A VMAF mean score: a number from 0 to 100.\<close>

definition vmaf_range :: "pynum \<Rightarrow> bool" where
  "vmaf_range v = (finite_num v \<and> 0 \<le> num_val v \<and> num_val v \<le> 100)"

text \<open>An \<open>int\<close> that a \<open>float\<close> holds exactly, or any \<open>float\<close>: the format \<open>.kf\<close> accepts it.\<close>

fun fits_float :: "pynum \<Rightarrow> bool" where
  "fits_float (PyInt n) = (\<bar>n\<bar> < 2 ^ 53)"
| "fits_float (PyFloat f) = True"

definition starts_with :: "string \<Rightarrow> string \<Rightarrow> bool" where
  "starts_with p s = (take (length p) s = p)"

text \<open>The lines that lines 71 to 85 print: the score, the legend, the tier.\<close>

definition score_line :: "string \<Rightarrow> bool" where
  "score_line l =
     (starts_with ''VMAF Score: '' l \<or> l \<in> set interpretation_legend \<or>
      starts_with ''\<newline>This video's quality is rated as: '' l)"




text \<open>
  A per-frame record as the engine writes it: an object whose \<open>'metrics'\<close> entry, if it
  has one, is an object whose \<open>'vmaf'\<close> entry, if it has one, is a number.
\<close>

definition wf_frame :: "json \<Rightarrow> bool" where
  "wf_frame frame =
     (case frame of
        JDict fd \<Rightarrow>
          (case map_of fd ''metrics'' of
             None \<Rightarrow> True
           | Some (JDict md) \<Rightarrow>
               (case map_of md ''vmaf'' of None \<Rightarrow> True | Some v \<Rightarrow> num_of v \<noteq> None)
           | Some _ \<Rightarrow> False)
      | _ \<Rightarrow> False)"

text \<open>The VMAF value of a per-frame record, 0 for a record that lacks one.\<close>

definition frame_score :: "json \<Rightarrow> pynum" where
  "frame_score frame =
     (case frame of
        JDict fd \<Rightarrow>
          (case map_of fd ''metrics'' of
             Some (JDict md) \<Rightarrow>
               (case map_of md ''vmaf'' of
                  None \<Rightarrow> PyInt 0
                | Some v \<Rightarrow> (case num_of v of None \<Rightarrow> PyInt 0 | Some n \<Rightarrow> n))
           | _ \<Rightarrow> PyInt 0)
      | _ \<Rightarrow> PyInt 0)"

text \<open>The kinds of events, and the two command lines.\<close>

fun is_download :: "event \<Rightarrow> bool" where
  "is_download (RunDownloader cmd) = True"
| "is_download _ = False"

fun is_engine :: "event \<Rightarrow> bool" where
  "is_engine (RunEngine cmd) = True"
| "is_engine _ = False"

fun is_exists :: "event \<Rightarrow> bool" where
  "is_exists (PathExists p) = True"
| "is_exists _ = False"

definition engine_command :: "string \<Rightarrow> string \<Rightarrow> string list \<Rightarrow> string list" where
  "engine_command reference_video distorted_video ms =
     [''ffmpeg-quality-metrics'', reference_video, distorted_video, ''--metrics''] @ ms"

definition download_target :: "world \<Rightarrow> string option \<Rightarrow> string" where
  "download_target w output_path =
     (case output_path of
        None \<Rightarrow> os_path_join (gettempdir w) ''youtube_download.mp4''
      | Some p \<Rightarrow> p)"

definition downloader_command :: "string \<Rightarrow> string \<Rightarrow> string list" where
  "downloader_command url out =
     [''yt-dlp'', ''-f'', ''bestvideo[ext=mp4]+bestaudio[ext=m4a]/mp4'', url, ''-o'', out]"

text \<open>
  An environment for the examples: both tools exit with 0, the engine writes an empty
  JSON object, and every path exists.
\<close>

definition example_world :: world where
  "example_world =
     \<lparr>downloader = (\<lambda>cmd. Exited 0 [] []),
      engine = (\<lambda>cmd. Exited 0 ''{}'' []),
      path_exists = (\<lambda>p. True),
      gettempdir = ''/tmp'',
      json_loads = (\<lambda>s. if s = ''{}'' then Some (JDict []) else None),
      error_text = (\<lambda>cmd code. ''Command returned non-zero exit status''),
      float_repr = (\<lambda>f. [])\<rparr>"

text \<open>What follows the resolution of the reference in \<open>main\<close>.\<close>

definition after_resolution :: "world \<Rightarrow> args \<Rightarrow> string option \<Rightarrow> unit run" where
  "after_resolution w a reference_video =
     bind_run (check_files w [reference_video, Some (distorted a)]) (\<lambda>_.
       case reference_video of
         None \<Rightarrow> ([], Uncaught)
       | Some r \<Rightarrow>
           bind_run (run_video_comparison w r (distorted a) (Some (metrics a)))
             (\<lambda>results. report w results))"

section \<open>Evaluation rules\<close>

text \<open>The recursive printers unfold on numerals only, so that rewriting with them ends.\<close>

lemma dec_numeral:
  "dec (numeral n) =
     (if numeral n < (10::nat) then [digit_char (numeral n)]
      else dec (numeral n div 10) @ [digit_char (numeral n)])"
  by (rule dec.simps)

lemma dec_small:
  "dec 0 = ''0''" "dec 1 = ''1''" "dec (Suc 0) = ''1''" "dec (Suc (Suc 0)) = ''2''"
  "dec (Suc (Suc (Suc 0))) = ''3''"
  by (simp_all add: dec.simps digit_char_def)

lemma bit_length_numeral: "bit_length (numeral n) = Suc (bit_length (numeral n div 2))"
  by (simp add: bit_length.simps)

lemma bit_length_small: "bit_length 0 = 0" "bit_length 1 = 1" "bit_length (Suc 0) = 1"
  by (simp_all add: bit_length.simps)

lemma replicate_numeral: "replicate (numeral k) x = x # replicate (pred_numeral k) x"
  by (simp add: numeral_eq_Suc)

lemmas format_eval =
  float_of_literal_def float_of_int_def overflows_def binary64_parts_def ilog2_def rhe_div_def
  bit_length_numeral bit_length_small Let_def format_float_def fixed_digits_def
  dec_numeral dec_small digit_char_def format_value_def replicate_numeral

lemmas report_eval =
  display_results_def display_metric_def vmaf_block_def vmaf_score_part_def
  vmaf_frames_part_def print_extreme_def frame_values_def frame_vmaf_def component_block_def
  py_get_def py_min_def py_max_def py_lt_def and_then_def print_def quality_tier_def
  interpretation_legend_def upper_def upper_char_def


section \<open>Comparison agrees with the rational values\<close>

lemma powi_split: "e \<le> e1 \<Longrightarrow> (2::rat) powi e1 = 2 ^ nat (e1 - e) * 2 powi e"
proof -
  assume le: "e \<le> e1"
  define k where "k = nat (e1 - e)"
  have e1: "e1 = int k + e" using le by (simp add: k_def)
  have "(2::rat) powi (int k + e) = 2 powi int k * 2 powi e"
    by (rule power_int_add) simp
  then show ?thesis
    unfolding e1 [symmetric] k_def [symmetric] by (simp only: power_int_of_nat k_def)
qed

lemma fin_val_scaled:
  "e \<le> e1 \<Longrightarrow> float_val (Fin m e1) = of_int (m * 2 ^ nat (e1 - e)) * 2 powi e"
  by (simp add: powi_split [of e e1])

lemma float_lt_Fin:
  "float_lt (Fin m1 e1) (Fin m2 e2) = (float_val (Fin m1 e1) < float_val (Fin m2 e2))"
proof -
  define e where "e = min e1 e2"
  have le: "e \<le> e1" "e \<le> e2" by (simp_all add: e_def)
  have pos: "(0::rat) < 2 powi e" by (simp add: zero_less_power_int)
  have "float_val (Fin m1 e1) < float_val (Fin m2 e2) \<longleftrightarrow>
        rat_of_int (m1 * 2 ^ nat (e1 - e)) * 2 powi e
          < rat_of_int (m2 * 2 ^ nat (e2 - e)) * 2 powi e"
    by (simp only: fin_val_scaled [OF le(1)] fin_val_scaled [OF le(2)])
  also have "\<dots> \<longleftrightarrow> rat_of_int (m1 * 2 ^ nat (e1 - e)) < rat_of_int (m2 * 2 ^ nat (e2 - e))"
    using pos by (rule mult_less_cancel_right_pos)
  also have "\<dots> \<longleftrightarrow> m1 * 2 ^ nat (e1 - e) < m2 * 2 ^ nat (e2 - e)"
    by (rule of_int_less_iff)
  finally show ?thesis by (simp add: e_def Let_def)
qed

lemma float_lt_val:
  "finite_float a \<Longrightarrow> finite_float b \<Longrightarrow> float_lt a b = (float_val a < float_val b)"
proof (cases a; cases b)
  fix m1 e1 m2 e2 assume "a = Fin m1 e1" "b = Fin m2 e2"
  then show ?thesis using float_lt_Fin by simp
next
  fix m e assume ab: "a = Fin m e" "b = NegZero"
  have "(0::rat) < 2 powi e" by (simp add: zero_less_power_int)
  then have "\<not> (2::rat) powi e < 0" by linarith
  then show ?thesis using ab by (simp add: mult_less_0_iff)
next
  fix m e assume ab: "a = NegZero" "b = Fin m e"
  have "(0::rat) < 2 powi e" by (simp add: zero_less_power_int)
  then have "\<not> (2::rat) powi e < 0" by linarith
  then show ?thesis using ab by (simp add: zero_less_mult_iff)
qed simp_all

lemma py_lt_val:
  "finite_num a \<Longrightarrow> finite_num b \<Longrightarrow> py_lt a b = (num_val a < num_val b)"
  by (cases a; cases b) (simp_all add: py_lt_def float_lt_val)

section \<open>The quality tier\<close>

text \<open>
  On every finite number the conditional expression of lines 81 to 84 is the threshold
  rule below; a score under 0 is still rated Bad and one over 100 still Excellent.
\<close>

lemma quality_tier_cases:
  assumes "finite_num v"
  shows "quality_tier v =
     (if num_val v < 20 then ''Bad'' else if num_val v < 40 then ''Poor''
      else if num_val v < 60 then ''Fair'' else if num_val v < 80 then ''Good''
      else ''Excellent'')"
  using assms by (simp add: quality_tier_def py_lt_val)

text \<open>
  Claim C1. A VMAF mean score \<open>v\<close> (a number from 0 to 100, an \<open>int\<close> or a \<open>float\<close>) is
  rated with exactly one of the five tiers, and the bands are half open: Bad iff
  \<open>0 \<le> v < 20\<close>, Poor iff \<open>20 \<le> v < 40\<close>, Fair iff \<open>40 \<le> v < 60\<close>, Good iff
  \<open>60 \<le> v < 80\<close>, Excellent iff \<open>80 \<le> v \<le> 100\<close>. The boundary values 20, 40, 60 and 80,
  as \<open>int\<close> and as \<open>float\<close>, are rated with the higher tier.
\<close>

theorem quality_tier_bands:
  assumes "vmaf_range v"
  shows "quality_tier v \<in> {''Bad'', ''Poor'', ''Fair'', ''Good'', ''Excellent''}
    \<and> (quality_tier v = ''Bad'' \<longleftrightarrow> 0 \<le> num_val v \<and> num_val v < 20)
    \<and> (quality_tier v = ''Poor'' \<longleftrightarrow> 20 \<le> num_val v \<and> num_val v < 40)
    \<and> (quality_tier v = ''Fair'' \<longleftrightarrow> 40 \<le> num_val v \<and> num_val v < 60)
    \<and> (quality_tier v = ''Good'' \<longleftrightarrow> 60 \<le> num_val v \<and> num_val v < 80)
    \<and> (quality_tier v = ''Excellent'' \<longleftrightarrow> 80 \<le> num_val v \<and> num_val v \<le> 100)
    \<and> quality_tier (PyInt 20) = ''Poor'' \<and> quality_tier (PyFloat (Fin 20 0)) = ''Poor''
    \<and> quality_tier (PyInt 40) = ''Fair'' \<and> quality_tier (PyFloat (Fin 40 0)) = ''Fair''
    \<and> quality_tier (PyInt 60) = ''Good'' \<and> quality_tier (PyFloat (Fin 60 0)) = ''Good''
    \<and> quality_tier (PyInt 80) = ''Excellent''
    \<and> quality_tier (PyFloat (Fin 80 0)) = ''Excellent''"
proof -
  from assms have fin: "finite_num v" and lo: "0 \<le> num_val v" and hi: "num_val v \<le> 100"
    by (simp_all add: vmaf_range_def)
  have bands: "quality_tier v \<in> {''Bad'', ''Poor'', ''Fair'', ''Good'', ''Excellent''}
    \<and> (quality_tier v = ''Bad'' \<longleftrightarrow> 0 \<le> num_val v \<and> num_val v < 20)
    \<and> (quality_tier v = ''Poor'' \<longleftrightarrow> 20 \<le> num_val v \<and> num_val v < 40)
    \<and> (quality_tier v = ''Fair'' \<longleftrightarrow> 40 \<le> num_val v \<and> num_val v < 60)
    \<and> (quality_tier v = ''Good'' \<longleftrightarrow> 60 \<le> num_val v \<and> num_val v < 80)
    \<and> (quality_tier v = ''Excellent'' \<longleftrightarrow> 80 \<le> num_val v \<and> num_val v \<le> 100)"
    unfolding quality_tier_cases [OF fin] using lo hi by auto
  have edges: "quality_tier (PyInt 20) = ''Poor'' \<and> quality_tier (PyFloat (Fin 20 0)) = ''Poor''
    \<and> quality_tier (PyInt 40) = ''Fair'' \<and> quality_tier (PyFloat (Fin 40 0)) = ''Fair''
    \<and> quality_tier (PyInt 60) = ''Good'' \<and> quality_tier (PyFloat (Fin 60 0)) = ''Good''
    \<and> quality_tier (PyInt 80) = ''Excellent''
    \<and> quality_tier (PyFloat (Fin 80 0)) = ''Excellent''"
    by (simp add: quality_tier_def py_lt_def)
  from bands edges show ?thesis by (simp only: simp_thms)
qed

theorem quality_tier_bands_witness:
  "vmaf_range (PyFloat (Fin 185 (- 1)))
   \<and> quality_tier (PyFloat (Fin 185 (- 1))) = ''Excellent''
   \<and> 80 \<le> num_val (PyFloat (Fin 185 (- 1)))"
proof -
  have r: "vmaf_range (PyFloat (Fin 185 (- 1)))"
    by (simp add: vmaf_range_def power_int_minus)
  from quality_tier_bands [OF r] r show ?thesis
    by (simp add: power_int_minus)
qed

section \<open>Numbers the format accepts\<close>

lemma bit_length_le: "n < 2 ^ k \<Longrightarrow> bit_length n \<le> k"
proof (induction k arbitrary: n)
  case 0
  then show ?case by (simp add: bit_length.simps)
next
  case (Suc k)
  show ?case
  proof (cases "n = 0")
    case True
    then show ?thesis by (simp add: bit_length.simps)
  next
    case False
    from Suc.prems have "n div 2 < 2 ^ k" by simp
    then have "bit_length (n div 2) \<le> k" by (rule Suc.IH)
    with False show ?thesis by (subst bit_length.simps) simp
  qed
qed

lemma rhe_div_one: "rhe_div a (Suc 0) = a"
  by (simp add: rhe_div_def)

lemma float_of_int_fits:
  assumes "\<bar>n\<bar> < 2 ^ 53"
  shows "\<exists>f. float_of_int n = Some f"
proof (cases "n = 0")
  case True
  then show ?thesis by (simp add: float_of_int_def)
next
  case False
  define a where "a = nat \<bar>n\<bar>"
  have a53: "a < 2 ^ 53" using assms by (simp add: a_def nat_less_iff)
  then have "bit_length a \<le> 53" by (rule bit_length_le)
  then have "ilog2 a 1 \<le> 52"
    by (simp add: ilog2_def Let_def bit_length_small)
  then have s: "max (ilog2 a 1) (- 1022) - 52 \<le> 0" by simp
  have "\<not> overflows (binary64_parts a 1)"
  proof (cases "max (ilog2 a 1) (- 1022) - 52 = 0")
    case True
    have "a < 2 ^ 1024" using a53 by (rule less_trans) simp
    with True show ?thesis
      by (simp add: binary64_parts_def overflows_def Let_def rhe_div_one)
  next
    case False
    with s have "max (ilog2 a 1) (- 1022) - 52 < 0" by simp
    then show ?thesis
      by (simp add: binary64_parts_def overflows_def Let_def)
  qed
  with False show ?thesis by (simp add: float_of_int_def Let_def a_def)
qed

lemma format_num_fits: "fits_float v \<Longrightarrow> \<exists>s. format_num k v = Some s"
proof (cases v)
  case (PyInt n)
  assume "fits_float v"
  with PyInt have "\<bar>n\<bar> < 2 ^ 53" by simp
  then obtain f where "float_of_int n = Some f" using float_of_int_fits by blast
  with PyInt show ?thesis by simp
next
  case (PyFloat f)
  then show ?thesis by simp
qed



text \<open>The rounded quotient is within one half of the exact one.\<close>

lemma rhe_div_nearest:
  assumes "0 < b"
  shows "\<bar>rat_of_nat a / rat_of_nat b - rat_of_nat (rhe_div a b)\<bar> \<le> 1 / 2"
proof -
  define q r where "q = a div b" and "r = a mod b"
  have a: "a = q * b + r" and r: "r < b" using assms by (simp_all add: q_def r_def)
  have bpos: "(0::rat) < rat_of_nat b" using assms by simp
  have quot: "rat_of_nat a / rat_of_nat b = rat_of_nat q + rat_of_nat r / rat_of_nat b"
    using bpos by (simp add: a field_simps)
  have frac0: "0 \<le> rat_of_nat r / rat_of_nat b" by simp
  have frac1: "rat_of_nat r / rat_of_nat b < 1" using r bpos by simp
  consider "2 * r < b" | "b < 2 * r" | "2 * r = b" by linarith
  then show ?thesis
  proof cases
    case 1
    then have "rat_of_nat (2 * r) < rat_of_nat b" by (simp only: of_nat_less_iff)
    then have "rat_of_nat r / rat_of_nat b < 1 / 2" using bpos by (simp add: field_simps)
    moreover from 1 have "rhe_div a b = q" by (simp add: rhe_div_def q_def r_def Let_def)
    ultimately show ?thesis using frac0 by (simp add: quot)
  next
    case 2
    then have "rat_of_nat b < rat_of_nat (2 * r)" by (simp only: of_nat_less_iff)
    then have "1 / 2 < rat_of_nat r / rat_of_nat b" using bpos by (simp add: field_simps)
    moreover from 2 have "rhe_div a b = q + 1" by (simp add: rhe_div_def q_def r_def Let_def)
    ultimately show ?thesis using frac1 by (simp add: quot)
  next
    case 3
    then have "rat_of_nat (2 * r) = rat_of_nat b" by simp
    then have half: "rat_of_nat r / rat_of_nat b = 1 / 2" using bpos by (simp add: field_simps)
    from 3 have "rhe_div a b = q \<or> rhe_div a b = q + 1"
      by (simp add: rhe_div_def q_def r_def Let_def)
    moreover have "rat_of_nat a / rat_of_nat b = rat_of_nat q + 1 / 2"
      using quot half by simp
    ultimately show ?thesis by (elim disjE) simp_all
  qed
qed




section \<open>The VMAF block\<close>

lemma and_then_simps:
  "and_then (out, Done) q = (out @ fst q, snd q)"
  "and_then (out, Raised) q = (out, Raised)"
  by (simp_all add: and_then_def)

lemma fst_and_then_subset: "set (fst (and_then p q)) \<subseteq> set (fst p) \<union> set (fst q)"
  by (cases p; cases "snd p") (auto simp: and_then_def)

lemma upper_vmaf: "upper ''vmaf'' = ''VMAF''" "upper ''psnr'' = ''PSNR''" "upper ''ssim'' = ''SSIM''"
  by (simp_all add: upper_def upper_char_def)

lemma print_extreme_lines:
  "l \<in> set (fst (print_extreme label pick frames)) \<Longrightarrow> \<exists>s. l = label @ s"
  by (simp add: print_extreme_def print_def split: option.splits)

lemma frames_part_lines:
  assumes "l \<in> set (fst (vmaf_frames_part d))"
  shows "l = ''\<newline>=== Frame-by-Frame Details ==='' \<or> (\<exists>n. l = ''Analyzed '' @ dec n @ '' frames'')
     \<or> (\<exists>s. l = ''Min VMAF: '' @ s) \<or> (\<exists>s. l = ''Max VMAF: '' @ s)"
proof (cases "map_of d ''frames''")
  case None
  with assms show ?thesis by (simp add: vmaf_frames_part_def)
next
  case (Some frames)
  show ?thesis
  proof (cases "truthy frames")
    case False
    with Some assms show ?thesis by (simp add: vmaf_frames_part_def)
  next
    case True
    show ?thesis
    proof (cases "py_len frames")
      case None
      with Some True assms show ?thesis
        by (simp add: vmaf_frames_part_def print_def and_then_simps)
    next
      case (Some n)
      with \<open>map_of d ''frames'' = Some frames\<close> True assms
      have "l = ''\<newline>=== Frame-by-Frame Details ==='' \<or> l = ''Analyzed '' @ dec n @ '' frames''
        \<or> l \<in> set (fst (and_then (print_extreme ''Min VMAF: '' py_min frames)
                 (print_extreme ''Max VMAF: '' py_max frames)))"
        by (simp add: vmaf_frames_part_def print_def and_then_simps)
      then show ?thesis
        using fst_and_then_subset [of "print_extreme ''Min VMAF: '' py_min frames"
            "print_extreme ''Max VMAF: '' py_max frames"]
          print_extreme_lines [of l "''Min VMAF: ''" py_min frames]
          print_extreme_lines [of l "''Max VMAF: ''" py_max frames]
        by blast
    qed
  qed
qed

lemma not_score_lines:
  "\<not> score_line ''\<newline>=== Frame-by-Frame Details ===''"
  "\<not> score_line (''Analyzed '' @ t)"
  "\<not> score_line (''Min VMAF: '' @ t)"
  "\<not> score_line (''Max VMAF: '' @ t)"
  "\<not> score_line ''=== VMAF Results ===''"
  "\<not> score_line []"
  by (simp_all add: score_line_def starts_with_def interpretation_legend_def)

lemma frames_part_no_score_line:
  "l \<in> set (fst (vmaf_frames_part d)) \<Longrightarrow> \<not> score_line l"
  using frames_part_lines [of l d] not_score_lines by blast

text \<open>
  Claim C3. When the \<open>'mean'\<close> key of the VMAF result is present with the value \<open>0\<close> or
  \<open>0.0\<close>, the reporter prints none of the score line, the legend and the tier: the test
  \<open>if vmaf_score:\<close> is on the truth value of the score, not on the presence of the key.
  The block then holds its header, the frame details if any, and the blank line.
\<close>

theorem zero_mean_prints_no_score:
  assumes "map_of d ''mean'' = Some m" and "m = JInt 0 \<or> m = JFloat (Fin 0 e)"
  shows "vmaf_score_part d = ([], Done)
    \<and> vmaf_block (JDict d) = vmaf_frames_part d
    \<and> (\<forall>l \<in> set (fst (display_metric frepr ''vmaf'' (JDict d))). \<not> score_line l)"
proof -
  from assms have part: "vmaf_score_part d = ([], Done)"
    by (auto simp: vmaf_score_part_def py_get_def)
  then have block: "vmaf_block (JDict d) = vmaf_frames_part d"
    by (simp add: vmaf_block_def and_then_simps)
  have "\<not> score_line l" if l: "l \<in> set (fst (display_metric frepr ''vmaf'' (JDict d)))" for l
  proof -
    have "set (fst (display_metric frepr ''vmaf'' (JDict d)))
      \<subseteq> {''=== VMAF Results ===''} \<union> (set (fst (vmaf_frames_part d)) \<union> {[]})"
      unfolding display_metric_def block upper_vmaf
      using fst_and_then_subset [of "print ''=== VMAF Results ===''"
          "and_then (vmaf_frames_part d) (print [])"]
        fst_and_then_subset [of "vmaf_frames_part d" "print []"]
      by (auto simp: print_def)
    with l have "l = ''=== VMAF Results ==='' \<or> l \<in> set (fst (vmaf_frames_part d)) \<or> l = []"
      by blast
    then show ?thesis
      using frames_part_no_score_line not_score_lines by blast
  qed
  with part block show ?thesis by blast
qed

theorem zero_mean_prints_no_score_witness:
  "map_of [(''mean'', JFloat (Fin 0 0)), (''harmonic_mean'', JInt 3)] ''mean'' = Some (JFloat (Fin 0 0))
   \<and> vmaf_score_part [(''mean'', JFloat (Fin 0 0)), (''harmonic_mean'', JInt 3)] = ([], Done)"
  using zero_mean_prints_no_score
    [of "[(''mean'', JFloat (Fin 0 0)), (''harmonic_mean'', JInt 3)]" "JFloat (Fin 0 0)" 0]
  by simp

text \<open>
  Claim C2 asks for the score, the legend and the tier whenever the result holds a mean
  score. At the mean score \<open>0.0\<close> (or \<open>0\<close>) the reporter prints the banner, the header of
  the block and the blank line, and nothing else.
\<close>

theorem zero_mean_report:
  "display_results frepr (JDict [(''vmaf'', JDict [(''mean'', JFloat (Fin 0 0))])]) =
     ([''\<newline>=== VIDEO QUALITY ASSESSMENT RESULTS ===\<newline>'', ''=== VMAF Results ==='', ''''], Done)
   \<and> display_results frepr (JDict [(''vmaf'', JDict [(''mean'', JInt 0)])]) =
     ([''\<newline>=== VIDEO QUALITY ASSESSMENT RESULTS ===\<newline>'', ''=== VMAF Results ==='', ''''], Done)"
  by (simp add: report_eval)

text \<open>
  A mean score whose truth value is true (not zero) is printed with two decimal places,
  followed by the legend and by the tier of that score.
\<close>

lemma mean_score_lines:
  assumes "map_of d ''mean'' = Some m" and "truthy m" and "num_of m = Some v"
    and "fits_float v"
  shows "\<exists>s. format_num 2 v = Some s \<and>
    vmaf_score_part d =
      ([''VMAF Score: '' @ s @ '' / 100.0''] @ interpretation_legend @
       [''\<newline>This video's quality is rated as: '' @ quality_tier v], Done)"
proof -
  from format_num_fits [OF assms(4)] obtain s where s: "format_num 2 v = Some s" by blast
  with assms(1-3) show ?thesis
    by (simp add: vmaf_score_part_def py_get_def)
qed

text \<open>The report of the result \<open>{"vmaf": {"mean": 92.5, "frames": [90.0, 95.0]}}\<close>.\<close>

lemma report_example_vmaf:
  "display_results frepr
     (JDict [(''vmaf'', JDict
        [(''mean'', JFloat (float_of_literal False 925 (- 1))),
         (''frames'', JList
            [JDict [(''metrics'', JDict [(''vmaf'', JFloat (float_of_literal False 900 (- 1)))])],
             JDict [(''metrics'', JDict [(''vmaf'', JFloat (float_of_literal False 950 (- 1)))])]])])]) =
   ([''\<newline>=== VIDEO QUALITY ASSESSMENT RESULTS ===\<newline>'',
     ''=== VMAF Results ==='',
     ''VMAF Score: 92.50 / 100.0'',
     ''\<newline>=== VMAF SCORE INTERPRETATION ==='',
     ''0-20:   Bad quality'',
     ''20-40:  Poor quality'',
     ''40-60:  Fair quality'',
     ''60-80:  Good quality'',
     ''80-100: Excellent quality'',
     ''\<newline>This video's quality is rated as: Excellent'',
     ''\<newline>=== Frame-by-Frame Details ==='',
     ''Analyzed 2 frames'',
     ''Min VMAF: 90.00'',
     ''Max VMAF: 95.00'',
     ''''], Done)"
  by (simp add: report_eval format_eval)

section \<open>The fallback for other metrics\<close>

lemma unknown_metric_block:
  assumes "metric \<noteq> ''vmaf''" and "metric \<noteq> ''psnr''" and "metric \<noteq> ''ssim''"
  shows "display_metric frepr metric data =
     ([''=== '' @ upper metric @ '' Results ==='', json_dumps frepr 2 0 data, ''''], Done)"
  using assms by (simp add: display_metric_def print_def and_then_simps)

lemma unknown_metrics_never_raise:
  "list_all (\<lambda>kv. fst kv \<noteq> ''vmaf'' \<and> fst kv \<noteq> ''psnr'' \<and> fst kv \<noteq> ''ssim'') items
   \<Longrightarrow> snd (display_items frepr items) = Done"
proof (induction items)
  case Nil
  then show ?case by simp
next
  case (Cons kv items)
  obtain metric data where kv: "kv = (metric, data)" by (cases kv)
  with Cons.prems have "display_metric frepr metric data =
     ([''=== '' @ upper metric @ '' Results ==='', json_dumps frepr 2 0 data, ''''], Done)"
    by (simp add: unknown_metric_block)
  with Cons kv show ?case by (simp add: and_then_simps)
qed



section \<open>The PSNR and SSIM blocks\<close>







section \<open>The frame details\<close>

lemma frame_vmaf_wf:
  assumes "wf_frame frame"
  shows "\<exists>v. frame_vmaf frame = Some v \<and> num_of v = Some (frame_score frame)"
proof (cases frame)
  case (JDict fd)
  show ?thesis
  proof (cases "map_of fd ''metrics''")
    case None
    with JDict show ?thesis
      by (simp add: frame_vmaf_def frame_score_def py_get_def)
  next
    case (Some m)
    with assms JDict obtain md where md: "m = JDict md"
      by (cases m) (simp_all add: wf_frame_def)
    show ?thesis
    proof (cases "map_of md ''vmaf''")
      case None
      with JDict Some md show ?thesis
        by (simp add: frame_vmaf_def frame_score_def py_get_def)
    next
      case (Some v)
      with assms JDict \<open>map_of fd ''metrics'' = Some m\<close> md obtain n where "num_of v = Some n"
        by (auto simp: wf_frame_def)
      with JDict Some \<open>map_of fd ''metrics'' = Some m\<close> md show ?thesis
        by (simp add: frame_vmaf_def frame_score_def py_get_def)
    qed
  qed
qed (use assms in \<open>simp_all add: wf_frame_def\<close>)

lemma all_some_map:
  "(\<And>x. x \<in> set xs \<Longrightarrow> g x = Some (h x)) \<Longrightarrow> all_some (map g xs) = Some (map h xs)"
  by (induction xs) simp_all

lemma frame_values_wf:
  assumes "list_all wf_frame fs"
  shows "frame_values (JList fs) = Some (map frame_score fs)"
proof -
  define val where "val f = (case frame_vmaf f of Some v \<Rightarrow> v | None \<Rightarrow> JNull)" for f
  have a: "frame_vmaf f = Some (val f)" and b: "num_of (val f) = Some (frame_score f)"
    if "f \<in> set fs" for f
  proof -
    from that assms have "wf_frame f" by (simp add: list_all_iff)
    from frame_vmaf_wf [OF this] show "frame_vmaf f = Some (val f)"
      and "num_of (val f) = Some (frame_score f)"
      by (auto simp: val_def)
  qed
  have "all_some (map frame_vmaf fs) = Some (map val fs)"
    by (rule all_some_map) (rule a)
  moreover have "all_some (map num_of (map val fs)) = Some (map frame_score fs)"
    unfolding map_map comp_def by (rule all_some_map) (rule b)
  ultimately show ?thesis by (simp add: frame_values_def)
qed

text \<open>On finite numbers the loops of \<open>min\<close> and \<open>max\<close> return a least and a greatest item.\<close>

lemma foldl_min_spec:
  assumes "\<forall>y \<in> set (x # rest). finite_num y"
  shows "foldl (\<lambda>cur item. if py_lt item cur then item else cur) x rest \<in> set (x # rest)
    \<and> (\<forall>y \<in> set (x # rest).
          num_val (foldl (\<lambda>cur item. if py_lt item cur then item else cur) x rest) \<le> num_val y)"
  using assms
proof (induction rest arbitrary: x)
  case Nil
  then show ?case by simp
next
  case (Cons z rest)
  let ?x' = "if py_lt z x then z else x"
  have fin: "\<forall>y \<in> set (?x' # rest). finite_num y" using Cons.prems by simp
  from Cons.IH [OF fin] have
    mem: "foldl (\<lambda>cur item. if py_lt item cur then item else cur) ?x' rest \<in> set (?x' # rest)"
    and low: "\<forall>y \<in> set (?x' # rest).
      num_val (foldl (\<lambda>cur item. if py_lt item cur then item else cur) ?x' rest) \<le> num_val y"
    by blast+
  have lt: "py_lt z x = (num_val z < num_val x)"
    using Cons.prems by (simp add: py_lt_val)
  from low have "num_val (foldl (\<lambda>cur item. if py_lt item cur then item else cur) ?x' rest)
      \<le> num_val ?x'" by simp
  then have "num_val (foldl (\<lambda>cur item. if py_lt item cur then item else cur) ?x' rest) \<le> num_val x
    \<and> num_val (foldl (\<lambda>cur item. if py_lt item cur then item else cur) ?x' rest) \<le> num_val z"
    using lt by (auto split: if_splits)
  with mem low show ?case by (auto split: if_splits)
qed

lemma foldl_max_spec:
  assumes "\<forall>y \<in> set (x # rest). finite_num y"
  shows "foldl (\<lambda>cur item. if py_lt cur item then item else cur) x rest \<in> set (x # rest)
    \<and> (\<forall>y \<in> set (x # rest).
          num_val y \<le> num_val (foldl (\<lambda>cur item. if py_lt cur item then item else cur) x rest))"
  using assms
proof (induction rest arbitrary: x)
  case Nil
  then show ?case by simp
next
  case (Cons z rest)
  let ?x' = "if py_lt x z then z else x"
  have fin: "\<forall>y \<in> set (?x' # rest). finite_num y" using Cons.prems by simp
  from Cons.IH [OF fin] have
    mem: "foldl (\<lambda>cur item. if py_lt cur item then item else cur) ?x' rest \<in> set (?x' # rest)"
    and high: "\<forall>y \<in> set (?x' # rest).
      num_val y \<le> num_val (foldl (\<lambda>cur item. if py_lt cur item then item else cur) ?x' rest)"
    by blast+
  have lt: "py_lt x z = (num_val x < num_val z)"
    using Cons.prems by (simp add: py_lt_val)
  from high have "num_val ?x'
      \<le> num_val (foldl (\<lambda>cur item. if py_lt cur item then item else cur) ?x' rest)" by simp
  then have "num_val x \<le> num_val (foldl (\<lambda>cur item. if py_lt cur item then item else cur) ?x' rest)
    \<and> num_val z \<le> num_val (foldl (\<lambda>cur item. if py_lt cur item then item else cur) ?x' rest)"
    using lt by (auto split: if_splits)
  with mem high show ?case by (auto split: if_splits)
qed

lemma py_min_spec:
  assumes "xs \<noteq> []" and "\<forall>y \<in> set xs. finite_num y"
  shows "\<exists>lo. py_min xs = Some lo \<and> lo \<in> set xs \<and> (\<forall>y \<in> set xs. num_val lo \<le> num_val y)"
proof -
  from assms(1) obtain x rest where xs: "xs = x # rest" by (cases xs) auto
  from foldl_min_spec [of x rest] assms(2) xs show ?thesis
    by (simp add: py_min_def)
qed

lemma py_max_spec:
  assumes "xs \<noteq> []" and "\<forall>y \<in> set xs. finite_num y"
  shows "\<exists>hi. py_max xs = Some hi \<and> hi \<in> set xs \<and> (\<forall>y \<in> set xs. num_val y \<le> num_val hi)"
proof -
  from assms(1) obtain x rest where xs: "xs = x # rest" by (cases xs) auto
  from foldl_max_spec [of x rest] assms(2) xs show ?thesis
    by (simp add: py_max_def)
qed

lemma frames_part_wf:
  assumes frames: "map_of d ''frames'' = Some (JList fs)" and ne: "fs \<noteq> []"
    and wf: "list_all wf_frame fs"
    and num: "list_all (\<lambda>f. finite_num (frame_score f) \<and> fits_float (frame_score f)) fs"
  shows "\<exists>lo hi s t.
       lo \<in> frame_score ` set fs \<and> hi \<in> frame_score ` set fs
     \<and> (\<forall>f \<in> set fs. num_val lo \<le> num_val (frame_score f)
                     \<and> num_val (frame_score f) \<le> num_val hi)
     \<and> format_num 2 lo = Some s \<and> format_num 2 hi = Some t
     \<and> vmaf_frames_part d =
         ([''\<newline>=== Frame-by-Frame Details ==='',
           ''Analyzed '' @ dec (length fs) @ '' frames'',
           ''Min VMAF: '' @ s, ''Max VMAF: '' @ t], Done)"
proof -
  let ?vs = "map frame_score fs"
  have vals: "frame_values (JList fs) = Some ?vs" using wf by (rule frame_values_wf)
  have vne: "?vs \<noteq> []" using ne by simp
  have fin: "\<forall>y \<in> set ?vs. finite_num y" using num by (auto simp: list_all_iff)
  from py_min_spec [OF vne fin] obtain lo where lo: "py_min ?vs = Some lo" "lo \<in> set ?vs"
    "\<forall>y \<in> set ?vs. num_val lo \<le> num_val y" by blast
  from py_max_spec [OF vne fin] obtain hi where hi: "py_max ?vs = Some hi" "hi \<in> set ?vs"
    "\<forall>y \<in> set ?vs. num_val y \<le> num_val hi" by blast
  from lo(2) num have "fits_float lo" by (auto simp: list_all_iff)
  from format_num_fits [OF this] obtain s where s: "format_num 2 lo = Some s" by blast
  from hi(2) num have "fits_float hi" by (auto simp: list_all_iff)
  from format_num_fits [OF this] obtain t where t: "format_num 2 hi = Some t" by blast
  have "vmaf_frames_part d =
         ([''\<newline>=== Frame-by-Frame Details ==='',
           ''Analyzed '' @ dec (length fs) @ '' frames'',
           ''Min VMAF: '' @ s, ''Max VMAF: '' @ t], Done)"
    using frames ne vals lo(1) hi(1) s t
    by (simp add: vmaf_frames_part_def print_extreme_def print_def and_then_simps)
  with lo(2,3) hi(2,3) s t show ?thesis by auto
qed

text \<open>
  Claim C4. When the VMAF result has the key \<open>'frames'\<close> with a non-empty list of per-frame
  records (each a well-formed record with a finite value that the format accepts, and the
  score lines before did not raise), the reporter prints the header of the frame details,
  the number of frames, and the least and the greatest per-frame value with two decimal
  places. A record with no \<open>'metrics'\<close> entry, or with no \<open>'vmaf'\<close> entry in it, counts as 0.
  When the key is absent or the list is empty, no frame details are printed.
\<close>

theorem frame_details:
  "(map_of d ''frames'' = Some (JList fs) \<and> fs \<noteq> [] \<and> list_all wf_frame fs
      \<and> list_all (\<lambda>f. finite_num (frame_score f) \<and> fits_float (frame_score f)) fs
      \<and> snd (vmaf_score_part d) = Done
    \<longrightarrow> (\<exists>lo hi s t.
         lo \<in> frame_score ` set fs \<and> hi \<in> frame_score ` set fs
       \<and> (\<forall>f \<in> set fs. num_val lo \<le> num_val (frame_score f)
                       \<and> num_val (frame_score f) \<le> num_val hi)
       \<and> format_num 2 lo = Some s \<and> format_num 2 hi = Some t
       \<and> vmaf_block (JDict d) =
           (fst (vmaf_score_part d) @
            [''\<newline>=== Frame-by-Frame Details ==='',
             ''Analyzed '' @ dec (length fs) @ '' frames'',
             ''Min VMAF: '' @ s, ''Max VMAF: '' @ t], Done)))
   \<and> (map_of fd ''metrics'' = None \<or>
       (map_of fd ''metrics'' = Some (JDict md) \<and> map_of md ''vmaf'' = None)
      \<longrightarrow> wf_frame (JDict fd) \<and> frame_score (JDict fd) = PyInt 0)
   \<and> (map_of d ''frames'' = None \<or> map_of d ''frames'' = Some (JList [])
      \<longrightarrow> vmaf_frames_part d = ([], Done)
        \<and> vmaf_block (JDict d) = vmaf_score_part d)"
proof (intro conjI impI)
  assume a: "map_of d ''frames'' = Some (JList fs) \<and> fs \<noteq> [] \<and> list_all wf_frame fs
      \<and> list_all (\<lambda>f. finite_num (frame_score f) \<and> fits_float (frame_score f)) fs
      \<and> snd (vmaf_score_part d) = Done"
  then have score: "vmaf_score_part d = (fst (vmaf_score_part d), Done)"
    by (cases "vmaf_score_part d") simp
  from a frames_part_wf [of d fs] obtain lo hi s t where
    r: "lo \<in> frame_score ` set fs" "hi \<in> frame_score ` set fs"
      "\<forall>f \<in> set fs. num_val lo \<le> num_val (frame_score f)
                     \<and> num_val (frame_score f) \<le> num_val hi"
      "format_num 2 lo = Some s" "format_num 2 hi = Some t"
      "vmaf_frames_part d =
         ([''\<newline>=== Frame-by-Frame Details ==='',
           ''Analyzed '' @ dec (length fs) @ '' frames'',
           ''Min VMAF: '' @ s, ''Max VMAF: '' @ t], Done)"
    by blast
  have "vmaf_block (JDict d) =
           (fst (vmaf_score_part d) @
            [''\<newline>=== Frame-by-Frame Details ==='',
             ''Analyzed '' @ dec (length fs) @ '' frames'',
             ''Min VMAF: '' @ s, ''Max VMAF: '' @ t], Done)"
    unfolding vmaf_block_def json.case r(6) by (subst score) (simp add: and_then_simps)
  with r(1-5) show "\<exists>lo hi s t.
         lo \<in> frame_score ` set fs \<and> hi \<in> frame_score ` set fs
       \<and> (\<forall>f \<in> set fs. num_val lo \<le> num_val (frame_score f)
                       \<and> num_val (frame_score f) \<le> num_val hi)
       \<and> format_num 2 lo = Some s \<and> format_num 2 hi = Some t
       \<and> vmaf_block (JDict d) =
           (fst (vmaf_score_part d) @
            [''\<newline>=== Frame-by-Frame Details ==='',
             ''Analyzed '' @ dec (length fs) @ '' frames'',
             ''Min VMAF: '' @ s, ''Max VMAF: '' @ t], Done)"
    by blast
next
  assume "map_of fd ''metrics'' = None \<or>
       (map_of fd ''metrics'' = Some (JDict md) \<and> map_of md ''vmaf'' = None)"
  then show "wf_frame (JDict fd)" by (auto simp: wf_frame_def)
next
  assume "map_of fd ''metrics'' = None \<or>
       (map_of fd ''metrics'' = Some (JDict md) \<and> map_of md ''vmaf'' = None)"
  then show "frame_score (JDict fd) = PyInt 0" by (auto simp: frame_score_def)
next
  assume "map_of d ''frames'' = None \<or> map_of d ''frames'' = Some (JList [])"
  then show "vmaf_frames_part d = ([], Done)" by (auto simp: vmaf_frames_part_def)
next
  assume "map_of d ''frames'' = None \<or> map_of d ''frames'' = Some (JList [])"
  then have "vmaf_frames_part d = ([], Done)" by (auto simp: vmaf_frames_part_def)
  then show "vmaf_block (JDict d) = vmaf_score_part d"
    by (cases "vmaf_score_part d"; cases "snd (vmaf_score_part d)")
       (simp_all add: vmaf_block_def and_then_def)
qed

theorem frame_details_witness:
  "map_of [(''frames'', JList
       [JDict [(''metrics'', JDict [(''vmaf'', JFloat (Fin 90 0))])], JDict [],
        JDict [(''metrics'', JDict [(''vmaf'', JFloat (Fin 95 0))])]])] ''frames'' =
     Some (JList
       [JDict [(''metrics'', JDict [(''vmaf'', JFloat (Fin 90 0))])], JDict [],
        JDict [(''metrics'', JDict [(''vmaf'', JFloat (Fin 95 0))])]])
   \<and> list_all wf_frame
       [JDict [(''metrics'', JDict [(''vmaf'', JFloat (Fin 90 0))])], JDict [],
        JDict [(''metrics'', JDict [(''vmaf'', JFloat (Fin 95 0))])]]
   \<and> frame_score (JDict []) = PyInt 0
   \<and> snd (vmaf_block (JDict [(''frames'', JList
       [JDict [(''metrics'', JDict [(''vmaf'', JFloat (Fin 90 0))])], JDict [],
        JDict [(''metrics'', JDict [(''vmaf'', JFloat (Fin 95 0))])]])])) = Done
   \<and> length (fst (vmaf_block (JDict [(''frames'', JList
       [JDict [(''metrics'', JDict [(''vmaf'', JFloat (Fin 90 0))])], JDict [],
        JDict [(''metrics'', JDict [(''vmaf'', JFloat (Fin 95 0))])]])]))) = 4"
proof -
  let ?fs = "[JDict [(''metrics'', JDict [(''vmaf'', JFloat (Fin 90 0))])], JDict [],
        JDict [(''metrics'', JDict [(''vmaf'', JFloat (Fin 95 0))])]]"
  let ?d = "[(''frames'', JList ?fs)]"
  have h1: "map_of ?d ''frames'' = Some (JList ?fs)" by simp
  have h2: "?fs \<noteq> []" by simp
  have h3: "list_all wf_frame ?fs" by (simp add: wf_frame_def)
  have h4: "list_all (\<lambda>f. finite_num (frame_score f) \<and> fits_float (frame_score f)) ?fs"
    by (simp add: frame_score_def)
  have h5: "snd (vmaf_score_part ?d) = Done" by (simp add: vmaf_score_part_def py_get_def)
  have h6: "fst (vmaf_score_part ?d) = []" by (simp add: vmaf_score_part_def py_get_def)
  have z: "frame_score (JDict []) = PyInt 0" by (simp add: frame_score_def)
  from frame_details [of ?d ?fs "[]" "[]"] h1 h2 h3 h4 h5
  obtain s t where "vmaf_block (JDict ?d) =
           (fst (vmaf_score_part ?d) @
            [''\<newline>=== Frame-by-Frame Details ==='',
             ''Analyzed '' @ dec (length ?fs) @ '' frames'',
             ''Min VMAF: '' @ s, ''Max VMAF: '' @ t], Done)"
    by blast
  with h6 have "snd (vmaf_block (JDict ?d)) = Done \<and> length (fst (vmaf_block (JDict ?d))) = 4"
    by simp
  with h1 h3 z show ?thesis by blast
qed

text \<open>Three frames, the second without a value: the least value printed is \<open>0.00\<close>.\<close>

lemma frames_example_missing_value:
  "vmaf_block (JDict [(''frames'', JList
       [JDict [(''metrics'', JDict [(''vmaf'', JFloat (Fin 90 0))])], JDict [],
        JDict [(''metrics'', JDict [(''vmaf'', JFloat (Fin 95 0))])]])]) =
   ([''\<newline>=== Frame-by-Frame Details ==='', ''Analyzed 3 frames'',
     ''Min VMAF: 0.00'', ''Max VMAF: 95.00''], Done)"
  by (simp add: report_eval format_eval)

section \<open>The metrics runner\<close>

lemma fst_bind_run:
  "fst (bind_run r f) = fst r @ (case snd r of Returned x \<Rightarrow> fst (f x) | _ \<Rightarrow> [])"
  by (cases r; cases "snd r") (auto simp: bind_run_def split: prod.splits)

lemma snd_bind_run:
  "snd (bind_run r f) =
     (case snd r of Returned x \<Rightarrow> snd (f x) | SysExit code \<Rightarrow> SysExit code | Uncaught \<Rightarrow> Uncaught)"
  by (cases r; cases "snd r") (auto simp: bind_run_def split: prod.splits)

lemma run_video_comparison_trace:
  "fst (run_video_comparison w r d ms) =
     [Print ''Running comparison between:'',
      Print (''Reference:  '' @ r),
      Print (''Distorted:  '' @ d),
      Print (''Using metrics: '' @ join '' '' (case ms of None \<Rightarrow> [''vmaf''] | Some m \<Rightarrow> m)),
      RunEngine (engine_command r d (case ms of None \<Rightarrow> [''vmaf''] | Some m \<Rightarrow> m))] @
     (case engine w (engine_command r d (case ms of None \<Rightarrow> [''vmaf''] | Some m \<Rightarrow> m)) of
        Exited code sout serr \<Rightarrow>
          if code = 0 then
            (case json_loads w sout of
               Some j \<Rightarrow> []
             | None \<Rightarrow> [Print (''Error parsing output. Raw output: '' @ sout)])
          else [Print (''Error running ffmpeg-quality-metrics: '' @
                  error_text w (engine_command r d (case ms of None \<Rightarrow> [''vmaf''] | Some m \<Rightarrow> m))
                    code),
                Print (''Command output: '' @ serr)]
      | _ \<Rightarrow> [])"
  by (simp add: run_video_comparison_def engine_command_def Let_def
      split: proc.splits option.splits)


text \<open>Without a list of metrics the runner compares by VMAF.\<close>

lemma run_video_comparison_default:
  "run_video_comparison w r d None = run_video_comparison w r d (Some [''vmaf''])"
  by (simp add: run_video_comparison_def)



section \<open>The program: resolution, checks, comparison\<close>

lemma download_trace:
  "fst (download_youtube_video w url output_path) =
     [Print (''Downloading YouTube video from: '' @ url),
      Print (''Saving to: '' @ download_target w output_path),
      RunDownloader (downloader_command url (download_target w output_path))] @
     (case downloader w (downloader_command url (download_target w output_path)) of
        Exited code sout serr \<Rightarrow>
          if code = 0 then []
          else [Print (''Error downloading YouTube video: '' @
                  error_text w (downloader_command url (download_target w output_path)) code)]
      | NotFound \<Rightarrow> [Print ''Error: yt-dlp not found. Install it with: pip install yt-dlp'']
      | OtherFailure \<Rightarrow> [])"
  by (simp add: download_youtube_video_def download_target_def downloader_command_def Let_def
      split: proc.splits option.splits)


lemma check_files_events:
  "e \<in> set (fst (check_files w ps)) \<Longrightarrow> \<not> is_download e \<and> \<not> is_engine e"
proof (induction w ps rule: check_files.induct)
  case (1 w)
  then show ?case by simp
next
  case (2 w rest)
  then show ?case by simp
next
  case (3 w video_path rest)
  then show ?case
    by (cases "path_exists w video_path") (auto simp: fst_bind_run)
qed

lemma report_events:
  "e \<in> set (fst (report w results)) \<Longrightarrow> \<not> is_download e \<and> \<not> is_engine e \<and> \<not> is_exists e"
  by (auto simp: report_def split: prod.splits status.splits)

lemma comparison_events:
  "e \<in> set (fst (run_video_comparison w r d ms)) \<Longrightarrow> \<not> is_download e \<and> \<not> is_exists e"
  by (auto simp: run_video_comparison_trace split: proc.splits option.splits if_splits)

lemma main_after: "main w a = bind_run (resolve_reference w a) (after_resolution w a)"
  by (simp add: main_def after_resolution_def [abs_def])

lemma after_resolution_events:
  "e \<in> set (fst (after_resolution w a ref)) \<Longrightarrow> \<not> is_download e"
  using check_files_events [of e w "[ref, Some (distorted a)]"]
    comparison_events report_events
  by (auto simp: after_resolution_def fst_bind_run split: outcome.splits option.splits)

lemma resolve_events:
  "e \<in> set (fst (resolve_reference w a)) \<Longrightarrow> \<not> is_engine e \<and> \<not> is_exists e"
  by (auto simp: resolve_reference_def fst_bind_run download_trace
      split: option.splits if_splits proc.splits)

text \<open>
  Claim C8. When the reference path that the resolution returned, or the distorted path,
  does not exist at the time of the checks, \<open>main\<close> prints
  \<open>Error: Video file not found:\<close> with the missing path last and leaves with
  \<open>sys.exit(1)\<close>, and the engine is never run.
\<close>

theorem missing_input_exits:
  assumes "snd (resolve_reference w a) = Returned (Some ref)"
    and "\<not> path_exists w ref \<or> \<not> path_exists w (distorted a)"
  shows "snd (main w a) = SysExit 1
    \<and> (\<forall>e \<in> set (fst (main w a)). \<not> is_engine e)
    \<and> (last (fst (main w a)) = Print (''Error: Video file not found: '' @ ref)
       \<or> last (fst (main w a)) = Print (''Error: Video file not found: '' @ distorted a))"
proof -
  have chk: "check_files w [Some ref, Some (distorted a)] =
     (if \<not> path_exists w ref then
        ([PathExists ref, Print (''Error: Video file not found: '' @ ref)], SysExit 1)
      else ([PathExists ref, PathExists (distorted a),
             Print (''Error: Video file not found: '' @ distorted a)], SysExit 1))"
    using assms(2) by (auto simp: bind_run_def)
  have after: "after_resolution w a (Some ref) = check_files w [Some ref, Some (distorted a)]"
    unfolding after_resolution_def chk by (simp add: bind_run_def)
  have tr: "fst (main w a) = fst (resolve_reference w a) @ fst (check_files w [Some ref, Some (distorted a)])"
    and res: "snd (main w a) = snd (check_files w [Some ref, Some (distorted a)])"
    using assms(1) by (simp_all add: main_after fst_bind_run snd_bind_run after)
  from res chk have "snd (main w a) = SysExit 1" by simp
  moreover have "\<forall>e \<in> set (fst (main w a)). \<not> is_engine e"
    unfolding tr using resolve_events [of _ w a] check_files_events [of _ w "[Some ref, Some (distorted a)]"]
    by auto
  moreover have "last (fst (main w a)) = Print (''Error: Video file not found: '' @ ref)
       \<or> last (fst (main w a)) = Print (''Error: Video file not found: '' @ distorted a)"
    unfolding tr chk by simp
  ultimately show ?thesis by blast
qed

theorem missing_input_exits_witness:
  "snd (resolve_reference (example_world\<lparr>path_exists := \<lambda>p. p = ''ref.mp4''\<rparr>)
         \<lparr>reference = Some ''ref.mp4'', youtube = None, distorted = ''gone.mp4'',
          youtube_output = None, metrics = [''vmaf'']\<rparr>) = Returned (Some ''ref.mp4'')
   \<and> \<not> path_exists (example_world\<lparr>path_exists := \<lambda>p. p = ''ref.mp4''\<rparr>) ''gone.mp4''
   \<and> main (example_world\<lparr>path_exists := \<lambda>p. p = ''ref.mp4''\<rparr>)
         \<lparr>reference = Some ''ref.mp4'', youtube = None, distorted = ''gone.mp4'',
          youtube_output = None, metrics = [''vmaf'']\<rparr> =
       ([PathExists ''ref.mp4'', PathExists ''gone.mp4'',
         Print ''Error: Video file not found: gone.mp4''], SysExit 1)"
proof -
  let ?w = "example_world\<lparr>path_exists := \<lambda>p. p = ''ref.mp4''\<rparr>"
  let ?a = "\<lparr>reference = Some ''ref.mp4'', youtube = None, distorted = ''gone.mp4'',
          youtube_output = None, metrics = [''vmaf'']\<rparr>"
  have h1: "snd (resolve_reference ?w ?a) = Returned (Some ''ref.mp4'')"
    by (simp add: resolve_reference_def)
  have h2: "\<not> path_exists ?w ''ref.mp4'' \<or> \<not> path_exists ?w (distorted ?a)"
    by (simp add: example_world_def)
  have ev: "main ?w ?a =
       ([PathExists ''ref.mp4'', PathExists ''gone.mp4'',
         Print ''Error: Video file not found: gone.mp4''], SysExit 1)"
    by (simp add: main_def resolve_reference_def bind_run_def example_world_def)
  from missing_input_exits [OF h1 h2] h1 h2 ev show ?thesis by simp
qed




text \<open>
  Claim C10. When a local reference path is given and \<open>--youtube\<close> is not, the resolution
  returns that path unchanged without any event, the run never calls the downloader, the
  first event is the existence check of that very path, and when both files exist the
  engine is run on it.
\<close>

theorem local_reference_passes_through:
  assumes "reference a = Some p" and "youtube a = None"
  shows "resolve_reference w a = ([], Returned (Some p))
    \<and> (\<forall>e \<in> set (fst (main w a)). \<not> is_download e)
    \<and> hd (fst (main w a)) = PathExists p
    \<and> (path_exists w p \<and> path_exists w (distorted a)
       \<longrightarrow> RunEngine (engine_command p (distorted a) (metrics a)) \<in> set (fst (main w a)))"
proof -
  have res: "resolve_reference w a = ([], Returned (Some p))"
    using assms by (simp add: resolve_reference_def)
  then have m: "main w a = after_resolution w a (Some p)"
    by (simp add: main_after bind_run_def)
  have nodl: "\<forall>e \<in> set (fst (main w a)). \<not> is_download e"
    unfolding m using after_resolution_events by blast
  have first: "hd (fst (main w a)) = PathExists p"
    unfolding m after_resolution_def
    by (cases "path_exists w p") (simp_all add: fst_bind_run)
  have eng: "RunEngine (engine_command p (distorted a) (metrics a)) \<in> set (fst (main w a))"
    if ex: "path_exists w p \<and> path_exists w (distorted a)"
  proof -
    from ex have chk: "check_files w [Some p, Some (distorted a)] =
        ([PathExists p, PathExists (distorted a)], Returned ())"
      by (simp add: bind_run_def)
    have "RunEngine (engine_command p (distorted a) (metrics a))
        \<in> set (fst (run_video_comparison w p (distorted a) (Some (metrics a))))"
      by (simp add: run_video_comparison_trace)
    then show ?thesis
      unfolding m after_resolution_def chk by (simp add: fst_bind_run)
  qed
  from res nodl first eng show ?thesis by blast
qed

theorem local_reference_passes_through_witness:
  "reference \<lparr>reference = Some ''ref.mp4'', youtube = None, distorted = ''d.mp4'',
              youtube_output = None, metrics = [''vmaf'']\<rparr> = Some ''ref.mp4''
   \<and> path_exists example_world ''ref.mp4'' \<and> path_exists example_world ''d.mp4''
   \<and> filter is_download (fst (main example_world
        \<lparr>reference = Some ''ref.mp4'', youtube = None, distorted = ''d.mp4'',
         youtube_output = None, metrics = [''vmaf'']\<rparr>)) = []
   \<and> RunEngine [''ffmpeg-quality-metrics'', ''ref.mp4'', ''d.mp4'', ''--metrics'', ''vmaf'']
       \<in> set (fst (main example_world
        \<lparr>reference = Some ''ref.mp4'', youtube = None, distorted = ''d.mp4'',
         youtube_output = None, metrics = [''vmaf'']\<rparr>))"
proof -
  let ?a = "\<lparr>reference = Some ''ref.mp4'', youtube = None, distorted = ''d.mp4'',
              youtube_output = None, metrics = [''vmaf'']\<rparr>"
  have h1: "reference ?a = Some ''ref.mp4''" and h2: "youtube ?a = None" by simp_all
  have ex: "path_exists example_world ''ref.mp4'' \<and> path_exists example_world (distorted ?a)"
    by (simp add: example_world_def)
  from local_reference_passes_through [OF h1 h2, of example_world] ex
  have "(\<forall>e \<in> set (fst (main example_world ?a)). \<not> is_download e)"
    and "RunEngine (engine_command ''ref.mp4'' (distorted ?a) (metrics ?a))
          \<in> set (fst (main example_world ?a))"
    by blast+
  with h1 ex show ?thesis by (simp add: filter_empty_conv engine_command_def)
qed

end
